theory Spec2Isabelle
  imports Main "HOL-Library.Sublist"
begin

section \<open>Strings and the Python primitives used by the reader\<close>

text \<open>
  A Python \<open>str\<close> is modelled as a \<open>string\<close>; a character is a code point below 256.
  A line read from a file keeps its terminating newline, as file iteration does.
\<close>

definition newline :: char where
  "newline = CHR 0x0A"

text \<open>\<open>s.find(c)\<close>: the index of the first occurrence of \<open>c\<close>, or \<open>-1\<close>.\<close>

fun find_char :: "string \<Rightarrow> char \<Rightarrow> int" where
  "find_char [] c = -1"
| "find_char (x # xs) c =
     (if x = c then 0
      else (let r = find_char xs c in if r < 0 then -1 else r + 1))"

text \<open>\<open>s.rfind(c)\<close>: the index of the last occurrence of \<open>c\<close>, or \<open>-1\<close>.\<close>

fun rfind_char :: "string \<Rightarrow> char \<Rightarrow> int" where
  "rfind_char [] c = -1"
| "rfind_char (x # xs) c =
     (let r = rfind_char xs c in
      if r < 0 then (if x = c then 0 else -1) else r + 1)"

text \<open>
  \<open>s[:k]\<close>: a negative stop counts from the end of the string and is clamped at the
  start; a stop beyond the end is the whole string.
\<close>

definition slice_to :: "string \<Rightarrow> int \<Rightarrow> string" where
  "slice_to s k =
     (if k < 0 then take (nat (int (length s) + k)) s else take (nat k) s)"

text \<open>\<open>s.startswith(p)\<close>.\<close>

definition startswith :: "string \<Rightarrow> string \<Rightarrow> bool" where
  "startswith s p = prefix p s"

section \<open>The tag pattern \<open>tagRE\<close>\<close>

text \<open>
  \<^verbatim>\<open>tagRE = re.compile(r'(.*?)<(/?\w+)[^>]*>(?:([^<]*)(<.*?>)?)?')\<close>

  The class \<open>\w\<close> of a \<open>str\<close> pattern holds the ASCII letters, digits and underscore and
  the alphanumeric code points above them; below 256 these are the ones listed here.
\<close>

definition word_char :: "char \<Rightarrow> bool" where
  "word_char c =
     (let n = (of_char c :: nat) in
      (48 \<le> n \<and> n \<le> 57) \<or> (65 \<le> n \<and> n \<le> 90) \<or> n = 95 \<or> (97 \<le> n \<and> n \<le> 122) \<or>
      n = 170 \<or> n = 178 \<or> n = 179 \<or> n = 181 \<or> n = 185 \<or> n = 186 \<or>
      (188 \<le> n \<and> n \<le> 190) \<or> (192 \<le> n \<and> n \<le> 214) \<or> (216 \<le> n \<and> n \<le> 246) \<or>
      248 \<le> n)"

text \<open>
  The match object: group 1 is the text before the tag, group 2 the tag name with its
  optional slash, group 3 the text between the tag and the next \<open><\<close>, group 4 the
  following tag when there is one on the same line. Group 3 takes part in every match
  (it may be empty), so \<open>line[m.start(3):m.end(3)]\<close> is \<open>m.group(3)\<close>, and
  \<open>m.lastindex == 4\<close> holds exactly when group 4 took part.
\<close>

record match =
  group1 :: string
  group2 :: string
  group3 :: string
  group4 :: "string option"

text \<open>
  \<open>(/?\w+)[^>]*>\<close> on the text that follows a \<open><\<close>: the tag name and the text after
  the closing \<open>>\<close>. The greedy \<open>\w+\<close> takes the whole run of word characters and
  \<open>[^>]*\<close> runs to the first \<open>>\<close>; giving characters back changes nothing, since
  \<open>[^>]*\<close> takes them again.
\<close>

definition match_tag :: "string \<Rightarrow> (string \<times> string) option" where
  "match_tag s =
     (let (slash, r1) = (case s of [] \<Rightarrow> ([], s)
                         | c # cs \<Rightarrow> if c = CHR ''/'' then ([c], cs) else ([], s));
          w = takeWhile word_char r1;
          r2 = dropWhile word_char r1
      in if w = [] then None
         else (case dropWhile (\<lambda>c. c \<noteq> CHR ''>'') r2 of
                 [] \<Rightarrow> None
               | _ # r3 \<Rightarrow> Some (slash @ w, r3)))"

text \<open>
  \<open>(?:([^<]*)(<.*?>)?)?\<close> on the text after the tag: group 3 runs to the next \<open><\<close>
  (newlines included), group 4 is the shortest \<open><...>\<close> that follows with no newline
  inside, and is absent when there is none.
\<close>

definition match_tail :: "string \<Rightarrow> string \<times> string option" where
  "match_tail r3 =
     (let g3 = takeWhile (\<lambda>c. c \<noteq> CHR ''<'') r3;
          r4 = dropWhile (\<lambda>c. c \<noteq> CHR ''<'') r3
      in case r4 of
           [] \<Rightarrow> (g3, None)
         | _ # r5 \<Rightarrow>
             (let x = takeWhile (\<lambda>c. c \<noteq> CHR ''>'' \<and> c \<noteq> newline) r5 in
              case dropWhile (\<lambda>c. c \<noteq> CHR ''>'' \<and> c \<noteq> newline) r5 of
                [] \<Rightarrow> (g3, None)
              | d # _ \<Rightarrow> if d = CHR ''>'' then (g3, Some (CHR ''<'' # x @ [d]))
                         else (g3, None)))"

text \<open>
  One attempt of the pattern at a fixed start: the lazy \<open>(.*?)\<close> grows one character
  at a time, never over a newline, until a tag matches.
\<close>

fun scan_from :: "string \<Rightarrow> string \<Rightarrow> match option" where
  "scan_from acc [] = None"
| "scan_from acc (c # cs) =
     (case (if c = CHR ''<'' then match_tag cs else None) of
        Some (tag, r3) \<Rightarrow>
          (let (g3, g4) = match_tail r3
           in Some \<lparr>group1 = acc, group2 = tag, group3 = g3, group4 = g4\<rparr>)
      | None \<Rightarrow> if c = newline then None else scan_from (acc @ [c]) cs)"

text \<open>\<open>tagRE.search(line)\<close>: the first start position at which an attempt succeeds.\<close>

fun tagRE_search :: "string \<Rightarrow> match option" where
  "tagRE_search [] = scan_from [] []"
| "tagRE_search (c # cs) =
     (case scan_from [] (c # cs) of
        Some m \<Rightarrow> Some m
      | None \<Rightarrow> tagRE_search cs)"

section \<open>Module state\<close>

text \<open>
  The module-level names the reader functions read and assign. \<open>acceptedNamespaces\<close> and
  \<open>Extractor.templatePrefix\<close> are imported from module \<open>extract\<close>, whose initial values
  are not part of the sources at hand; they are whatever the caller's state holds.
\<close>

record globals =
  knownNamespaces :: "string set"
  templateNamespace :: string
  moduleNamespace :: string
  modulePrefix :: string
  templatePrefix :: string
  acceptedNamespaces :: "string set"

datatype py_error = UnboundLocalError | ValueError | FileNotFoundError

section \<open>The page collector \<open>collect_pages\<close>\<close>

text \<open>
  The local variables that both readers keep: the page buffer, the text flag and the
  title, which is unbound (\<open>None\<close>) until a \<open>title\<close> tag assigns it.
\<close>

record reader_state =
  page :: "string list"
  inText :: bool
  title :: "string option"

record cp_state = reader_state +
  id_cp :: string
  revid :: string
  last_id :: string
  redirect :: bool

type_synonym page_record = "string \<times> string \<times> string \<times> string list"

definition cp_init :: cp_state where
  "cp_init = \<lparr>page = [], inText = False, title = None,
              id_cp = [], revid = [], last_id = [], redirect = False\<rparr>"

text \<open>
  One iteration of the \<open>for line in text\<close> loop. The result is the new state and the
  record yielded by the iteration, if any; reading the unbound \<open>title\<close> raises. The
  matcher is an argument, so that what an iteration does without consulting it is
  visible; the loop passes \<open>tagRE_search\<close>.
\<close>

definition collect_line ::
  "(string \<Rightarrow> match option) \<Rightarrow> globals \<Rightarrow> cp_state \<Rightarrow> string
     \<Rightarrow> py_error + (cp_state \<times> page_record option)" where
  "collect_line search g s line =
     (if CHR ''<'' \<notin> set line then
        Inr (if inText s then s\<lparr>page := page s @ [line]\<rparr> else s, None)
      else case search line of
        None \<Rightarrow> Inr (s, None)
      | Some m \<Rightarrow>
          (let tag = group2 m in
           if tag = ''page'' then Inr (s\<lparr>page := [], redirect := False\<rparr>, None)
           else if tag = ''id'' \<and> id_cp s = [] then Inr (s\<lparr>id_cp := group3 m\<rparr>, None)
           else if tag = ''id'' \<and> id_cp s \<noteq> [] then Inr (s\<lparr>revid := group3 m\<rparr>, None)
           else if tag = ''title'' then Inr (s\<lparr>title := Some (group3 m)\<rparr>, None)
           else if tag = ''redirect'' then Inr (s\<lparr>redirect := True\<rparr>, None)
           else if tag = ''text'' then
             Inr (s\<lparr>page := page s @ [group3 m], inText := (group4 m = None)\<rparr>, None)
           else if tag = ''/text'' then
             Inr (s\<lparr>page := (if group1 m \<noteq> [] then page s @ [group1 m] else page s),
                     inText := False\<rparr>, None)
           else if inText s then Inr (s\<lparr>page := page s @ [line]\<rparr>, None)
           else if tag = ''/page'' then
             (case title s of
                None \<Rightarrow> Inl UnboundLocalError
              | Some t \<Rightarrow>
                  (let colon = find_char t CHR '':'';
                       s' = s\<lparr>page := [], inText := False, id_cp := [], revid := [],
                               redirect := False\<rparr>
                   in if (colon < 0 \<or> slice_to t colon \<in> acceptedNamespaces g) \<and>
                         id_cp s \<noteq> last_id s \<and> \<not> redirect s \<and>
                         \<not> startswith t (templateNamespace g)
                      then Inr (s'\<lparr>last_id := id_cp s\<rparr>, Some (id_cp s, revid s, t, page s))
                      else Inr (s', None)))
           else Inr (s, None)))"

text \<open>
  The loop over the lines. A generator hands each record to its consumer before it goes
  on, so the records yielded before an error are part of the result.
\<close>

fun collect_loop ::
  "globals \<Rightarrow> cp_state \<Rightarrow> string list \<Rightarrow> page_record list \<times> (py_error + cp_state)" where
  "collect_loop g s [] = ([], Inr s)"
| "collect_loop g s (l # ls) =
     (case collect_line tagRE_search g s l of
        Inl e \<Rightarrow> ([], Inl e)
      | Inr (s', y) \<Rightarrow>
          (let (ys, r) = collect_loop g s' ls
           in ((case y of None \<Rightarrow> [] | Some p \<Rightarrow> [p]) @ ys, r)))"

definition collect_pages :: "globals \<Rightarrow> string list \<Rightarrow> page_record list \<times> py_error option" where
  "collect_pages g text =
     (let (ys, r) = collect_loop g cp_init text
      in (ys, case r of Inl e \<Rightarrow> Some e | Inr _ \<Rightarrow> None))"

section \<open>The template collector \<open>load_templates\<close>\<close>

text \<open>
  Modelled from the spec: \<open>define_template\<close> belongs to module \<open>extract\<close>, which is not
  among the sources; the spec has it insert (title, buffer) into the template store. The
  calls are kept in order, with the title and the page buffer each one received.
\<close>

type_synonym template_store = "(string \<times> string list) list"

definition define_template :: "string \<Rightarrow> string list \<Rightarrow> template_store \<Rightarrow> template_store" where
  "define_template t p store = store @ [(t, p)]"

text \<open>
  The locals of \<open>load_templates\<close>, the module state it assigns, the template store and
  the strings written to the output file, in the order of the \<open>write\<close> calls.
\<close>

record lt_state = reader_state +
  articles :: nat
  templates :: nat
  lt_globals :: globals
  defined :: template_store
  written :: "string list"

text \<open>The truth value of an optional file name: \<open>None\<close> and the empty string are false.\<close>

definition truthy :: "string option \<Rightarrow> bool" where
  "truthy f = (case f of None \<Rightarrow> False | Some n \<Rightarrow> n \<noteq> [])"

definition lt_init :: "globals \<Rightarrow> lt_state" where
  "lt_init g = \<lparr>page = [], inText = False, title = None, articles = 0, templates = 0,
                lt_globals = g\<lparr>modulePrefix := moduleNamespace g @ '':''\<rparr>,
                defined = [], written = []\<rparr>"

text \<open>The page as the mirror file receives it.\<close>

definition mirror_page :: "string \<Rightarrow> string list \<Rightarrow> string list" where
  "mirror_page t p =
     [''<page>'' @ [newline],
      ''   <title>'' @ t @ ''</title>'' @ [newline],
      ''   <ns>10</ns>'' @ [newline],
      ''   <text>''] @ p @
     [''   </text>'' @ [newline],
      ''</page>'' @ [newline]]"

definition load_line ::
  "(string \<Rightarrow> match option) \<Rightarrow> string option \<Rightarrow> lt_state \<Rightarrow> string \<Rightarrow> py_error + lt_state" where
  "load_line search output_file s line =
     (if CHR ''<'' \<notin> set line then
        Inr (if inText s then s\<lparr>page := page s @ [line]\<rparr> else s)
      else case search line of
        None \<Rightarrow> Inr s
      | Some m \<Rightarrow>
          (let tag = group2 m; g = lt_globals s in
           if tag = ''page'' then Inr (s\<lparr>page := []\<rparr>)
           else if tag = ''title'' then
             (let t = group3 m; s1 = s\<lparr>title := Some t\<rparr> in
              if \<not> truthy output_file \<and> templateNamespace g = [] then
                (let colon = find_char t CHR '':'' in
                 if colon > 1 then
                   Inr (s1\<lparr>lt_globals := g\<lparr>templateNamespace := slice_to t colon,
                                               templatePrefix := slice_to t (colon + 1)\<rparr>\<rparr>)
                 else Inr s1)
              else Inr s1)
           else if tag = ''text'' then
             Inr (s\<lparr>page := page s @ [group3 m], inText := (group4 m = None)\<rparr>)
           else if tag = ''/text'' then
             Inr (s\<lparr>page := (if group1 m \<noteq> [] then page s @ [group1 m] else page s),
                     inText := False\<rparr>)
           else if inText s then Inr (s\<lparr>page := page s @ [line]\<rparr>)
           else if tag = ''/page'' then
             (case title s of
                None \<Rightarrow> Inl UnboundLocalError
              | Some t \<Rightarrow>
                  (let s1 = (if startswith t (templatePrefix g)
                             then s\<lparr>templates := templates s + 1,
                                    defined := define_template t (page s) (defined s)\<rparr>
                             else s);
                       s2 = (if truthy output_file \<and>
                                (startswith t (templatePrefix g) \<or> startswith t (modulePrefix g))
                             then s1\<lparr>written := written s1 @ mirror_page t (page s)\<rparr>
                             else s1)
                   in Inr (s2\<lparr>page := [], articles := articles s + 1\<rparr>)))
           else Inr s))"

fun load_loop :: "string option \<Rightarrow> lt_state \<Rightarrow> string list \<Rightarrow> py_error + lt_state" where
  "load_loop output_file s [] = Inr s"
| "load_loop output_file s (l # ls) =
     (case load_line tagRE_search output_file s l of
        Inl e \<Rightarrow> Inl e
      | Inr s' \<Rightarrow> load_loop output_file s' ls)"

text \<open>
  \<open>load_templates(file, output_file)\<close>: the final state holds the number of templates
  (the return value), the module state, the store and the mirror output.
\<close>

definition load_templates :: "globals \<Rightarrow> string list \<Rightarrow> string option \<Rightarrow> py_error + lt_state" where
  "load_templates g file output_file = load_loop output_file (lt_init g) file"

text \<open>
  Iterating over a file opened in text mode: a line ends at a line feed, at a carriage
  return or at the two together, and each of them is read as one line feed; a last line
  without a line end is a line too.
\<close>

definition carriage_return :: char where
  "carriage_return = CHR 0x0D"

fun file_lines_from :: "string \<Rightarrow> string \<Rightarrow> string list" where
  "file_lines_from acc [] = (if acc = [] then [] else [acc])"
| "file_lines_from acc [c] =
     (if c = newline \<or> c = carriage_return then [acc @ [newline]] else [acc @ [c]])"
| "file_lines_from acc (c # d # ds) =
     (if c = carriage_return \<and> d = newline then (acc @ [newline]) # file_lines_from [] ds
      else if c = newline \<or> c = carriage_return
           then (acc @ [newline]) # file_lines_from [] (d # ds)
      else file_lines_from (acc @ [c]) (d # ds))"

definition file_lines :: "string \<Rightarrow> string list" where
  "file_lines content = file_lines_from [] content"

section \<open>The header reader of \<open>process_dump\<close>\<close>

text \<open>\<open>re.search(p, line)\<close> for a pattern \<open>p\<close> of plain characters: \<open>p\<close> occurs in the line.\<close>

fun contains :: "string \<Rightarrow> string \<Rightarrow> bool" where
  "contains [] p = (p = [])"
| "contains (c # cs) p = (prefix p (c # cs) \<or> contains cs p)"

record header_state =
  hd_globals :: globals
  urlbase :: string

text \<open>
  One iteration of the \<open>collect siteinfo\<close> loop; the flag tells that the loop breaks.
  This loop has no test for \<open><\<close>: every line goes to the pattern.
\<close>

definition header_line :: "header_state \<Rightarrow> string \<Rightarrow> header_state \<times> bool" where
  "header_line h line =
     (case tagRE_search line of
        None \<Rightarrow> (h, False)
      | Some m \<Rightarrow>
          (let tag = group2 m; g = hd_globals h in
           if tag = ''base'' then
             (let base = group3 m
              in (h\<lparr>urlbase := slice_to base (rfind_char base CHR ''/'')\<rparr>, False))
           else if tag = ''namespace'' then
             (let g1 = g\<lparr>knownNamespaces := insert (group3 m) (knownNamespaces g)\<rparr> in
              if contains line ''key=\"10\"'' then
                (h\<lparr>hd_globals := g1\<lparr>templateNamespace := group3 m,
                                      templatePrefix := group3 m @ '':''\<rparr>\<rparr>, False)
              else if contains line ''key=\"828\"'' then
                (h\<lparr>hd_globals := g1\<lparr>moduleNamespace := group3 m,
                                      modulePrefix := group3 m @ '':''\<rparr>\<rparr>, False)
              else (h\<lparr>hd_globals := g1\<rparr>, False))
           else if tag = ''/siteinfo'' then (h, True)
           else (h, False)))"

text \<open>The loop: the state after the header and the lines the stream still holds.\<close>

fun read_header :: "header_state \<Rightarrow> string list \<Rightarrow> header_state \<times> string list" where
  "read_header h [] = (h, [])"
| "read_header h (l # ls) =
     (case header_line h l of
        (h', True) \<Rightarrow> (h', ls)
      | (h', False) \<Rightarrow> read_header h' ls)"

section \<open>The extraction pipeline of \<open>process_dump\<close>\<close>

type_synonym job = "string \<times> string \<times> string \<times> string \<times> string list \<times> nat"

text \<open>
  What the main line of control does to the processes and the two queues, in program
  order: \<open>PutJobSentinel\<close> is \<open>jobs_queue.put(None)\<close>, \<open>PutOutputSentinel\<close> is
  \<open>output_queue.put(None)\<close>.
\<close>

datatype event =
    CreateWriter string
  | StartReduce
  | StartWorker nat
  | PutJob job
  | PutJobSentinel
  | JoinWorker nat
  | PutOutputSentinel
  | JoinReduce

text \<open>The jobs of the mapper loop: each record with the base URL and its ordinal.\<close>

fun make_jobs :: "string \<Rightarrow> nat \<Rightarrow> page_record list \<Rightarrow> job list" where
  "make_jobs ub ordinal [] = []"
| "make_jobs ub ordinal ((i, r, t, p) # ps) = (i, r, ub, t, p, ordinal) # make_jobs ub (Suc ordinal) ps"

text \<open>\<open>range(max(1, process_count))\<close>.\<close>

definition worker_ids :: "int \<Rightarrow> nat list" where
  "worker_ids process_count = [0 ..< nat (max 1 process_count)]"

text \<open>
  From \<open>PageWriter(out_dir)\<close> to \<open>reduce.join()\<close>: the events, and the error of the page
  collector when it raises in the mapper loop, which ends the function there.
\<close>

definition run_pipeline ::
  "globals \<Rightarrow> string \<Rightarrow> string \<Rightarrow> int \<Rightarrow> string list \<Rightarrow> event list \<times> py_error option" where
  "run_pipeline g ub out_dir process_count input =
     (let workers = worker_ids process_count;
          (pages, err) = collect_pages g input;
          started = [CreateWriter out_dir, StartReduce] @ map StartWorker workers @
                    map PutJob (make_jobs ub 0 pages)
      in case err of
           Some e \<Rightarrow> (started, Some e)
         | None \<Rightarrow>
             (started @ map (\<lambda>_. PutJobSentinel) workers @ map JoinWorker workers @
              [PutOutputSentinel, JoinReduce], None))"

text \<open>
  The file system as far as \<open>process_dump\<close> looks at it: the lines of each file that
  exists and can be read.
\<close>

type_synonym files = "string \<Rightarrow> string list option"

record pd_result =
  pd_events :: "event list"
  pd_error :: "py_error option"
  pd_globals :: globals
  pd_defined :: template_store
  pd_written :: "string list"

definition pd_fail :: "globals \<Rightarrow> py_error \<Rightarrow> pd_result" where
  "pd_fail g e = \<lparr>pd_events = [], pd_error = Some e, pd_globals = g,
                  pd_defined = [], pd_written = []\<rparr>"

text \<open>
  \<open>process_dump\<close>. The template file is optional (\<open>None\<close> when the option is absent);
  \<open>os.path.exists\<close> holds of the names the file system knows.
\<close>

definition process_dump ::
  "files \<Rightarrow> globals \<Rightarrow> string \<Rightarrow> string option \<Rightarrow> string \<Rightarrow> int \<Rightarrow> bool \<Rightarrow> pd_result" where
  "process_dump fs g0 input_file template_file out_dir process_count expand_templates =
     (case fs input_file of
        None \<Rightarrow> pd_fail g0 FileNotFoundError
      | Some lines \<Rightarrow>
          (let (h, rest) = read_header \<lparr>hd_globals = g0, urlbase = []\<rparr> lines;
               g = hd_globals h;
               pipeline = (\<lambda>g' input store out.
                  (let (evs, err) = run_pipeline g' (urlbase h) out_dir process_count input
                   in \<lparr>pd_events = evs, pd_error = err, pd_globals = g',
                       pd_defined = store, pd_written = out\<rparr>))
           in if expand_templates then
                (if truthy template_file \<and> fs (the template_file) \<noteq> None then
                   (case load_templates g (the (fs (the template_file))) None of
                      Inl e \<Rightarrow> pd_fail g e
                    | Inr s \<Rightarrow> pipeline (lt_globals s) rest (defined s) [])
                 else if input_file = ''-'' then pd_fail g ValueError
                 else
                   (case load_templates g rest template_file of
                      Inl e \<Rightarrow> pd_fail g e
                    | Inr s \<Rightarrow> pipeline (lt_globals s) lines (defined s) (written s)))
              else pipeline g rest [] []))"

section \<open>The reducer \<open>reduce_process\<close>\<close>




section \<open>Notions used in the statements\<close>

text \<open>A module state for the examples: the names an English dump declares.\<close>

definition example_globals :: globals where
  "example_globals =
     \<lparr>knownNamespaces = {''Template''}, templateNamespace = ''Template'',
      moduleNamespace = ''Module'', modulePrefix = ''Module:'',
      templatePrefix = ''Template:'',
      acceptedNamespaces = {''w'', ''wiktionary'', ''wikt''}\<rparr>"

text \<open>
  The spec's reading of the base URL, "path up to last \<open>/\<close>": \<open>u\<close> is the part of \<open>b\<close>
  that ends just before the last \<open>/\<close> of \<open>b\<close>.
\<close>

definition path_up_to_last_slash :: "string \<Rightarrow> string \<Rightarrow> bool" where
  "path_up_to_last_slash b u =
     (length u < length b \<and> take (length u) b = u \<and> b ! length u = CHR ''/'' \<and>
      CHR ''/'' \<notin> set (drop (Suc (length u)) b))"





text \<open>The tag the pattern reads off a line.\<close>

definition tag_of :: "string \<Rightarrow> string option" where
  "tag_of l = map_option group2 (tagRE_search l)"

text \<open>
  The tests of the yield condition that look at the title alone, as \<open>collect_pages\<close>
  writes them: the namespace test and the test against the template namespace name.
\<close>

definition qualifies :: "globals \<Rightarrow> string \<Rightarrow> bool" where
  "qualifies g t =
     ((find_char t CHR '':'' < 0 \<or> slice_to t (find_char t CHR '':'') \<in> acceptedNamespaces g) \<and>
      \<not> startswith t (templateNamespace g))"

text \<open>The state \<open>collect_pages\<close> is in after a \<open>/page\<close>, with \<open>l\<close> the last yielded id.\<close>

definition closed_state :: "cp_state \<Rightarrow> string \<Rightarrow> string \<Rightarrow> cp_state" where
  "closed_state s t l = s\<lparr>page := [], inText := False, title := Some t, id_cp := [],
      revid := [], redirect := False, last_id := l\<rparr>"

text \<open>
  The state between two pages: the locals as \<open>collect_pages\<close> resets them at a \<open>/page\<close>
  and as it starts with them. The title and the last yielded id are as they are.
\<close>

definition between_pages :: "cp_state \<Rightarrow> bool" where
  "between_pages s =
     (page s = [] \<and> \<not> inText s \<and> id_cp s = [] \<and> revid s = [] \<and> \<not> redirect s)"

text \<open>
  A block of lines that is one page: its last line scans as \<open>/page\<close> and no line before
  it does. The result is the state in which the closing line is read when the block is
  read from the start of a stream, and \<open>None\<close> for a block of another shape.
\<close>

definition page_at_close :: "globals \<Rightarrow> string list \<Rightarrow> cp_state option" where
  "page_at_close g b =
     (if b = [] then None
      else if tag_of (last b) = Some ''/page'' \<and>
              (\<forall>l \<in> set (butlast b). tag_of l \<noteq> Some ''/page'')
      then (case snd (collect_loop g cp_init (butlast b)) of
              Inl e \<Rightarrow> None
            | Inr s \<Rightarrow> Some s)
      else None)"

text \<open>
  The block reads as a page with id \<open>i\<close>, revision id \<open>r\<close>, title \<open>t\<close>, buffer \<open>p\<close> and
  redirect flag \<open>rd\<close>, and its closing line is read outside an open text element.
  Whatever lines the page has between its tags is allowed.
\<close>

definition reads_as_page ::
  "globals \<Rightarrow> string list \<Rightarrow> string \<Rightarrow> string \<Rightarrow> string \<Rightarrow> string list \<Rightarrow> bool \<Rightarrow> bool" where
  "reads_as_page g b i r t p rd =
     (case page_at_close g b of
        None \<Rightarrow> False
      | Some s \<Rightarrow> \<not> inText s \<and> id_cp s = i \<and> revid s = r \<and> title s = Some t \<and>
                  page s = p \<and> redirect s = rd)"

text \<open>
  A state of a run from the start of a stream, carried over to the run that started in
  \<open>s\<close>: it has the last yielded id of \<open>s\<close>, and the title of \<open>s\<close> as long as the run has
  assigned none.
\<close>

definition rebase :: "cp_state \<Rightarrow> cp_state \<Rightarrow> cp_state" where
  "rebase s x = x\<lparr>last_id := last_id s,
                  title := (if title x = None then title s else title x)\<rparr>"

text \<open>
  A page as a dump has it, with namespace, revision id and a text of two lines, and a
  page without an id tag.
\<close>

definition dump_page :: "string \<Rightarrow> string \<Rightarrow> string \<Rightarrow> string list" where
  "dump_page i rv t =
     [''  <page>\<newline>'',
      ''    <title>'' @ t @ ''</title>\<newline>'',
      ''    <ns>0</ns>\<newline>'',
      ''    <id>'' @ i @ ''</id>\<newline>'',
      ''    <revision>\<newline>'',
      ''      <id>'' @ rv @ ''</id>\<newline>'',
      ''      <text xml:space=\"preserve\">first line\<newline>'',
      ''second line</text>\<newline>'',
      ''    </revision>\<newline>'',
      ''  </page>\<newline>'']"

definition page_without_id :: "string \<Rightarrow> string list" where
  "page_without_id t =
     [''  <page>\<newline>'', ''    <title>'' @ t @ ''</title>\<newline>'',
      ''    <text xml:space=\"preserve\">body</text>\<newline>'', ''  </page>\<newline>'']"

text \<open>The five lines of a plain page, written out.\<close>

definition example_page :: "string \<Rightarrow> string \<Rightarrow> string \<Rightarrow> string list" where
  "example_page i t p =
     [''<page>\<newline>'', ''  <title>'' @ t @ ''</title>\<newline>'', ''  <id>'' @ i @ ''</id>\<newline>'',
      ''  <text xml:space=\"preserve\">'' @ p @ ''</text>\<newline>'', ''</page>\<newline>'']"

text \<open>A dump whose header declares the namespace \<open>Help\<close> and holds one page of it.\<close>

definition help_dump :: "string list" where
  "help_dump =
     [''<siteinfo>\<newline>'',
      ''<namespace key=\"10\" case=\"first-letter\">Template</namespace>\<newline>'',
      ''<namespace key=\"12\" case=\"first-letter\">Help</namespace>\<newline>'',
      ''</siteinfo>\<newline>''] @ example_page ''5'' ''Help:Contents'' ''body''"

text \<open>The error of a result, if it is one.\<close>

definition error_of :: "'e + 'a \<Rightarrow> 'e option" where
  "error_of r = (case r of Inl e \<Rightarrow> Some e | Inr _ \<Rightarrow> None)"

text \<open>
  Whether a reader is inside an open text element after some lines, having started with
  the flag \<open>b\<close>: a \<open>text\<close> tag opens one unless it is closed on its own line, a \<open>/text\<close>
  tag closes it, other lines leave it. (A \<open>/page\<close> read outside text closes it too; the
  statements use this notion only for lines before the first \<open>/page\<close>.)
\<close>

fun text_open :: "bool \<Rightarrow> string list \<Rightarrow> bool" where
  "text_open b [] = b"
| "text_open b (l # ls) =
     text_open (case tagRE_search l of
                  None \<Rightarrow> b
                | Some m \<Rightarrow> if group2 m = ''text'' then group4 m = None
                            else if group2 m = ''/text'' then False else b) ls"

text \<open>A dump with one template page.\<close>

definition template_dump :: "string list" where
  "template_dump =
     [''<page>\<newline>'',
      ''  <title>Template:Foo</title>\<newline>'',
      ''  <text xml:space=\"preserve\">bar</text>\<newline>'',
      ''</page>\<newline>'']"

section \<open>The scanner on lines without a tag\<close>

lemma scan_from_no_lt: "CHR ''<'' \<notin> set xs \<Longrightarrow> scan_from acc xs = None"
  by (induction xs arbitrary: acc) auto

lemma tagRE_search_no_lt: "CHR ''<'' \<notin> set xs \<Longrightarrow> tagRE_search xs = None"
  by (induction xs) (auto simp: scan_from_no_lt split: option.splits)

lemma tagRE_search_has_lt: "tagRE_search xs = Some m \<Longrightarrow> CHR ''<'' \<in> set xs"
  using tagRE_search_no_lt by fastforce

text \<open>
  C8. A line without \<open><\<close> never reaches the pattern: whatever the matcher would
  answer, \<open>collect_pages\<close> and \<open>load_templates\<close> append the line to the page buffer when
  they are inside a text element and leave their state as it is otherwise, and no
  record is yielded. The pattern itself has no match on such a line.
\<close>

theorem fast_reject_without_match:
  "CHR ''<'' \<notin> set line \<Longrightarrow>
     collect_line search g s line =
       Inr (if inText s then s\<lparr>page := page s @ [line]\<rparr> else s, None) \<and>
     load_line search output_file t line =
       Inr (if inText t then t\<lparr>page := page t @ [line]\<rparr> else t) \<and>
     tagRE_search line = None"
  by (simp add: collect_line_def load_line_def tagRE_search_no_lt)

theorem fast_reject_without_match_witness:
  "CHR ''<'' \<notin> set ''plain text\<newline>'' \<and>
   collect_line tagRE_search example_globals (cp_init\<lparr>inText := True\<rparr>) ''plain text\<newline>'' =
     Inr (cp_init\<lparr>inText := True, page := [''plain text\<newline>'']\<rparr>, None) \<and>
   load_line tagRE_search None (lt_init example_globals) ''plain text\<newline>'' =
     Inr (lt_init example_globals) \<and>
   tagRE_search ''plain text\<newline>'' = None"
  using fast_reject_without_match [of "''plain text\<newline>''" tagRE_search example_globals
      "cp_init\<lparr>inText := True\<rparr>" None "lt_init example_globals"]
  by (simp add: cp_init_def lt_init_def)

section \<open>The page collector with an empty template namespace\<close>

lemma collect_line_empty_namespace:
  "templateNamespace g = [] \<Longrightarrow> collect_line search g s l = Inr (s', y) \<Longrightarrow> y = None"
  by (auto simp: collect_line_def startswith_def Let_def split: if_splits option.splits)

lemma collect_loop_empty_namespace:
  "templateNamespace g = [] \<Longrightarrow> fst (collect_loop g s ls) = []"
proof (induction ls arbitrary: s)
  case Nil
  show ?case by simp
next
  case (Cons l ls)
  show ?case
  proof (cases "collect_line tagRE_search g s l")
    case (Inl e)
    then show ?thesis by simp
  next
    case (Inr r)
    obtain s' y where r: "r = (s', y)" by (cases r)
    with Inr Cons.prems have "y = None"
      using collect_line_empty_namespace by blast
    with Inr r Cons.IH [OF Cons.prems, of s'] show ?thesis
      by (simp add: split_beta)
  qed
qed

text \<open>
  C9. When the template namespace name is the empty string, \<open>collect_pages\<close> yields no
  record, whatever the input: every title starts with the empty string, so the last
  test of the yield condition fails at every \<open>/page\<close>.
\<close>

theorem empty_template_namespace_yields_nothing:
  "templateNamespace g = [] \<Longrightarrow> fst (collect_pages g lines) = []"
  using collect_loop_empty_namespace [of g cp_init lines]
  by (simp add: collect_pages_def split_beta)

theorem empty_template_namespace_yields_nothing_witness:
  "templateNamespace (example_globals\<lparr>templateNamespace := []\<rparr>) = [] \<and>
   fst (collect_pages (example_globals\<lparr>templateNamespace := []\<rparr>)
      [''<page>\<newline>'', ''<title>Hello</title>\<newline>'', ''<id>6</id>\<newline>'', ''<text>bar</text>\<newline>'', ''</page>\<newline>'']) = []"
  using empty_template_namespace_yields_nothing [of "example_globals\<lparr>templateNamespace := []\<rparr>"
    "[''<page>\<newline>'', ''<title>Hello</title>\<newline>'', ''<id>6</id>\<newline>'', ''<text>bar</text>\<newline>'', ''</page>\<newline>'']"]
  by simp

section \<open>The base URL of the header\<close>

lemma rfind_char_absent: "c \<notin> set b \<Longrightarrow> rfind_char b c = -1"
  by (induction b) (auto simp: Let_def)

lemma rfind_char_present:
  "c \<in> set b \<Longrightarrow> 0 \<le> rfind_char b c \<and> nat (rfind_char b c) < length b \<and>
     b ! nat (rfind_char b c) = c \<and> c \<notin> set (drop (Suc (nat (rfind_char b c))) b)"
proof (induction b)
  case Nil
  then show ?case by simp
next
  case (Cons x xs)
  show ?case
  proof (cases "c \<in> set xs")
    case True
    from Cons.IH [OF True] show ?thesis
      by (auto simp: Let_def nat_add_distrib)
  next
    case False
    with Cons.prems have "x = c" by simp
    with False show ?thesis by (simp add: rfind_char_absent Let_def)
  qed
qed

lemma slice_to_rfind:
  "c \<in> set b \<Longrightarrow> slice_to b (rfind_char b c) = take (nat (rfind_char b c)) b"
  using rfind_char_present [of c b] by (simp add: slice_to_def)

lemma header_line_base:
  "tagRE_search l = Some m \<Longrightarrow> group2 m = ''base'' \<Longrightarrow>
     urlbase (fst (header_line h l)) = slice_to (group3 m) (rfind_char (group3 m) CHR ''/'')"
  by (simp add: header_line_def Let_def)

text \<open>
  C7, as the code has it. For a header line whose tag is \<open>base\<close> and whose payload \<open>b\<close>
  holds a \<open>/\<close>, the base URL becomes the part of \<open>b\<close> that ends just before its last
  \<open>/\<close>.
\<close>

theorem base_url_up_to_last_slash:
  "tagRE_search l = Some m \<Longrightarrow> group2 m = ''base'' \<Longrightarrow> CHR ''/'' \<in> set (group3 m) \<Longrightarrow>
     path_up_to_last_slash (group3 m) (urlbase (fst (header_line h l)))"
proof -
  assume m: "tagRE_search l = Some m" "group2 m = ''base''" and sl: "CHR ''/'' \<in> set (group3 m)"
  let ?b = "group3 m"
  let ?r = "nat (rfind_char ?b CHR ''/'')"
  have u: "urlbase (fst (header_line h l)) = take ?r ?b"
    using header_line_base [OF m] slice_to_rfind [OF sl] by simp
  from rfind_char_present [OF sl] have "?r < length ?b" "?b ! ?r = CHR ''/''"
    "CHR ''/'' \<notin> set (drop (Suc ?r) ?b)" by simp_all
  then show ?thesis
    unfolding u path_up_to_last_slash_def by (simp add: min_def)
qed

theorem base_url_up_to_last_slash_witness:
  "tagRE_search ''<base>https://en.wikipedia.org/wiki/Main_Page</base>\<newline>'' =
     Some \<lparr>group1 = [], group2 = ''base'', group3 = ''https://en.wikipedia.org/wiki/Main_Page'',
           group4 = Some ''</base>''\<rparr> \<and>
   CHR ''/'' \<in> set ''https://en.wikipedia.org/wiki/Main_Page'' \<and>
   path_up_to_last_slash ''https://en.wikipedia.org/wiki/Main_Page''
     (urlbase (fst (header_line \<lparr>hd_globals = example_globals, urlbase = []\<rparr>
        ''<base>https://en.wikipedia.org/wiki/Main_Page</base>\<newline>'')))"
proof -
  have s: "tagRE_search ''<base>https://en.wikipedia.org/wiki/Main_Page</base>\<newline>'' =
     Some \<lparr>group1 = [], group2 = ''base'', group3 = ''https://en.wikipedia.org/wiki/Main_Page'',
           group4 = Some ''</base>''\<rparr>"
    by code_simp
  show ?thesis
    using s base_url_up_to_last_slash [OF s, of "\<lparr>hd_globals = example_globals, urlbase = []\<rparr>"]
    by simp
qed

text \<open>
  C7 as stated, for every payload, fails on a payload without \<open>/\<close>: \<open>rfind\<close> answers
  \<open>-1\<close> and the slice drops the last character, so \<open>abc\<close> gives \<open>ab\<close>.
\<close>

theorem base_without_slash_counterexample:
  "tagRE_search ''<base>abc</base>\<newline>'' =
     Some \<lparr>group1 = [], group2 = ''base'', group3 = ''abc'', group4 = Some ''</base>''\<rparr> \<and>
   urlbase (fst (header_line \<lparr>hd_globals = example_globals, urlbase = []\<rparr>
      ''<base>abc</base>\<newline>'')) = ''ab'' \<and>
   \<not> path_up_to_last_slash ''abc''
     (urlbase (fst (header_line \<lparr>hd_globals = example_globals, urlbase = []\<rparr>
        ''<base>abc</base>\<newline>'')))"
  by code_simp

section \<open>Template expansion from standard input\<close>

text \<open>
  C6. With template expansion enabled, the input name \<open>-\<close> and no template file that is
  both named and present, \<open>process_dump\<close> ends in an error before anything is processed:
  the writer and the processes are not created and no job is put, no template is stored
  and nothing is written to a mirror file. The error is \<open>ValueError\<close>, or the error of
  opening the input when no file of that name can be opened. Only the header of the
  input has been read by then, and the module state is as the header reader left it.
\<close>

theorem stdin_without_template_file_fails:
  "\<not> (truthy template_file \<and> fs (the template_file) \<noteq> None) \<Longrightarrow>
     pd_error (process_dump fs g ''-'' template_file out_dir process_count True) =
       Some (if fs ''-'' = None then FileNotFoundError else ValueError) \<and>
     pd_events (process_dump fs g ''-'' template_file out_dir process_count True) = [] \<and>
     pd_defined (process_dump fs g ''-'' template_file out_dir process_count True) = [] \<and>
     pd_written (process_dump fs g ''-'' template_file out_dir process_count True) = [] \<and>
     pd_globals (process_dump fs g ''-'' template_file out_dir process_count True) =
       (case fs ''-'' of
          None \<Rightarrow> g
        | Some lines \<Rightarrow> hd_globals (fst (read_header \<lparr>hd_globals = g, urlbase = []\<rparr> lines)))"
  by (auto simp: process_dump_def pd_fail_def Let_def split_beta split: option.splits)

theorem stdin_without_template_file_fails_witness:
  "\<not> (truthy None \<and> (\<lambda>f. if f = ''-'' then Some help_dump else None) (the None) \<noteq> None) \<and>
   pd_error (process_dump (\<lambda>f. if f = ''-'' then Some help_dump else None)
      example_globals ''-'' None ''out'' 2 True) = Some ValueError \<and>
   pd_events (process_dump (\<lambda>f. if f = ''-'' then Some help_dump else None)
      example_globals ''-'' None ''out'' 2 True) = [] \<and>
   pd_defined (process_dump (\<lambda>f. if f = ''-'' then Some help_dump else None)
      example_globals ''-'' None ''out'' 2 True) = [] \<and>
   pd_written (process_dump (\<lambda>f. if f = ''-'' then Some help_dump else None)
      example_globals ''-'' None ''out'' 2 True) = [] \<and>
   pd_globals (process_dump (\<lambda>f. if f = ''-'' then Some help_dump else None)
      example_globals ''-'' None ''out'' 2 True) =
     hd_globals (fst (read_header \<lparr>hd_globals = example_globals, urlbase = []\<rparr> help_dump)) \<and>
   ''Help'' \<in> knownNamespaces (hd_globals (fst
      (read_header \<lparr>hd_globals = example_globals, urlbase = []\<rparr> help_dump)))"
proof -
  have k: "''Help'' \<in> knownNamespaces (hd_globals (fst
      (read_header \<lparr>hd_globals = example_globals, urlbase = []\<rparr> help_dump)))"
    by code_simp
  show ?thesis
    using k stdin_without_template_file_fails [of None
      "(\<lambda>f. if f = ''-'' then Some help_dump else None)" example_globals "''out''" 2]
    by (simp add: truthy_def)
qed

section \<open>Shutdown of the pipeline by sentinels\<close>












section \<open>The page collector on whole pages\<close>

lemma collect_loop_append:
  "collect_loop g s (xs @ ys) =
     (case collect_loop g s xs of
        (r1, Inl e) \<Rightarrow> (r1, Inl e)
      | (r1, Inr s') \<Rightarrow> (case collect_loop g s' ys of (r2, r) \<Rightarrow> (r1 @ r2, r)))"
proof (induction xs arbitrary: s)
  case Nil
  show ?case by simp
next
  case (Cons x xs)
  show ?case
  proof (cases "collect_line tagRE_search g s x")
    case (Inl e)
    then show ?thesis by simp
  next
    case (Inr r)
    then show ?thesis
      by (cases r) (simp add: Cons.IH split_beta split: sum.splits prod.splits)
  qed
qed

lemma tag_of_has_lt: "tag_of l = Some tag \<Longrightarrow> CHR ''<'' \<in> set l"
  by (auto simp: tag_of_def dest: tagRE_search_has_lt)

lemma closed_state_fields [simp]:
  "\<not> inText (closed_state s t l)" "id_cp (closed_state s t l) = []"
  "last_id (closed_state s t l) = l" "revid (closed_state s t l) = []"
  by (simp_all add: closed_state_def)

lemma collect_line_rebase:
  assumes "tag_of l \<noteq> Some ''/page''"
  shows "\<exists>x'. collect_line tagRE_search g x l = Inr (x', None) \<and>
           collect_line tagRE_search g (rebase s x) l = Inr (rebase s x', None)"
proof (cases "tagRE_search l")
  case None
  then show ?thesis by (simp add: collect_line_def rebase_def)
next
  case (Some m)
  with assms have "group2 m \<noteq> ''/page''" by (simp add: tag_of_def)
  with Some tagRE_search_has_lt [OF Some] show ?thesis
    by (simp add: collect_line_def rebase_def Let_def)
qed

lemma collect_loop_rebase:
  assumes "\<forall>l\<in>set body. tag_of l \<noteq> Some ''/page''"
  shows "\<exists>x'. collect_loop g x body = ([], Inr x') \<and>
           collect_loop g (rebase s x) body = ([], Inr (rebase s x'))"
  using assms
proof (induction body arbitrary: x)
  case Nil
  show ?case by simp
next
  case (Cons l body)
  from Cons.prems have "tag_of l \<noteq> Some ''/page''" by simp
  from collect_line_rebase [OF this, of g x s] obtain x1
    where 1: "collect_line tagRE_search g x l = Inr (x1, None)"
      "collect_line tagRE_search g (rebase s x) l = Inr (rebase s x1, None)" by blast
  from Cons.prems have "\<forall>l\<in>set body. tag_of l \<noteq> Some ''/page''" by simp
  from Cons.IH [OF this, of x1] obtain x'
    where 2: "collect_loop g x1 body = ([], Inr x')"
      "collect_loop g (rebase s x1) body = ([], Inr (rebase s x'))" by blast
  from 1 2 show ?case by simp
qed

lemma rebase_init: "between_pages s \<Longrightarrow> rebase s cp_init = s"
  by (cases s) (simp add: rebase_def cp_init_def between_pages_def)

lemma collect_line_close:
  assumes "tag_of l = Some ''/page''" "\<not> inText s" "title s = Some t"
  shows "collect_line tagRE_search g s l =
     (if qualifies g t \<and> \<not> redirect s \<and> id_cp s \<noteq> last_id s
      then Inr (closed_state s t (id_cp s), Some (id_cp s, revid s, t, page s))
      else Inr (closed_state s t (last_id s), None))"
proof -
  from assms(1) obtain m where m: "tagRE_search l = Some m" "group2 m = ''/page''"
    by (auto simp: tag_of_def)
  with tagRE_search_has_lt [OF m(1)] assms(2) assms(3) show ?thesis
    by (auto simp: collect_line_def qualifies_def closed_state_def Let_def)
qed

lemma page_run:
  assumes "reads_as_page g b i r t p rd" "between_pages s"
  shows "collect_loop g s b =
     (if qualifies g t \<and> \<not> rd \<and> i \<noteq> last_id s
      then ([(i, r, t, p)], Inr (closed_state s t i))
      else ([], Inr (closed_state s t (last_id s))))"
proof -
  from assms(1) obtain x where x: "page_at_close g b = Some x" "\<not> inText x" "id_cp x = i"
      "revid x = r" "title x = Some t" "page x = p" "redirect x = rd"
    by (auto simp: reads_as_page_def split: option.splits)
  from x(1) have b: "b \<noteq> []" "tag_of (last b) = Some ''/page''"
      "\<forall>l\<in>set (butlast b). tag_of l \<noteq> Some ''/page''"
      "snd (collect_loop g cp_init (butlast b)) = Inr x"
    by (auto simp: page_at_close_def split: if_splits sum.splits)
  from collect_loop_rebase [OF b(3), of g cp_init s] b(4) rebase_init [OF assms(2)]
  have body: "collect_loop g s (butlast b) = ([], Inr (rebase s x))" by auto
  have f: "\<not> inText (rebase s x)" "title (rebase s x) = Some t" "id_cp (rebase s x) = i"
      "revid (rebase s x) = r" "page (rebase s x) = p" "redirect (rebase s x) = rd"
      "last_id (rebase s x) = last_id s"
    using x by (simp_all add: rebase_def)
  have cs: "\<And>l. closed_state (rebase s x) t l = closed_state s t l"
    using assms(2) x
    by (cases s, cases x) (simp add: closed_state_def rebase_def between_pages_def)
  have "collect_loop g s b = collect_loop g s (butlast b @ [last b])"
    using b(1) by simp
  also have "\<dots> =
     (if qualifies g t \<and> \<not> rd \<and> i \<noteq> last_id s
      then ([(i, r, t, p)], Inr (closed_state s t i))
      else ([], Inr (closed_state s t (last_id s))))"
    unfolding collect_loop_append body
    using collect_line_close [OF b(2) f(1) f(2), of g] f cs by simp
  finally show ?thesis .
qed

lemma closed_state_between [simp]: "between_pages s \<Longrightarrow> between_pages (closed_state s t l)"
  by (simp add: between_pages_def closed_state_def)


text \<open>
  C3, as the code has it. The duplicate filter compares with the id of the last record
  yielded, which is the empty string before the first. Of two qualifying pages with the
  same id \<open>i\<close> that follow each other, the second is not yielded, and the first is yielded
  exactly when \<open>i\<close> is not the last yielded id before it. With a qualifying page of
  another id \<open>j\<close> between them, that page and the second page with id \<open>i\<close> are both
  yielded. With a page between them that is not yielded, a redirect or a title that
  fails the tests, the second page with id \<open>i\<close> is still suppressed. A page is any block
  of lines that reads as one, started between two pages.
\<close>

theorem adjacent_duplicate_filter:
  assumes "reads_as_page g b1 i r1 t1 p1 False" "qualifies g t1"
    and "reads_as_page g b2 i r2 t2 p2 False" "qualifies g t2"
    and "reads_as_page g b3 j r3 t3 p3 False" "qualifies g t3" "j \<noteq> i"
    and "reads_as_page g b4 k r4 t4 p4 rd4" "rd4 \<or> \<not> qualifies g t4"
    and "between_pages s"
  shows "fst (collect_loop g s (b1 @ b2)) =
           (if i \<noteq> last_id s then [(i, r1, t1, p1)] else []) \<and>
         fst (collect_loop g s (b1 @ b3 @ b2)) =
           (if i \<noteq> last_id s then [(i, r1, t1, p1)] else []) @
           [(j, r3, t3, p3), (i, r2, t2, p2)] \<and>
         fst (collect_loop g s (b1 @ b4 @ b2)) =
           (if i \<noteq> last_id s then [(i, r1, t1, p1)] else [])"
proof -
  let ?first = "if i \<noteq> last_id s then [(i, r1, t1, p1)] else []"
  let ?s1 = "closed_state s t1 i"
  have bp1: "between_pages ?s1" using assms(10) by simp
  have r1: "collect_loop g s b1 = (?first, Inr ?s1)"
    using page_run [OF assms(1) assms(10)] assms(2) by simp
  have r2: "collect_loop g ?s1 b2 = ([], Inr (closed_state ?s1 t2 i))"
    using page_run [OF assms(3) bp1] by simp
  have r3: "collect_loop g ?s1 b3 = ([(j, r3, t3, p3)], Inr (closed_state ?s1 t3 j))"
    using page_run [OF assms(5) bp1] assms(6) assms(7) by simp
  have bp3: "between_pages (closed_state ?s1 t3 j)" using bp1 by simp
  have r32: "collect_loop g (closed_state ?s1 t3 j) b2 =
      ([(i, r2, t2, p2)], Inr (closed_state (closed_state ?s1 t3 j) t2 i))"
    using page_run [OF assms(3) bp3] assms(4) assms(7) by simp
  have r4: "collect_loop g ?s1 b4 = ([], Inr (closed_state ?s1 t4 i))"
    using page_run [OF assms(8) bp1] assms(9) by auto
  have bp4: "between_pages (closed_state ?s1 t4 i)" using bp1 by simp
  have r42: "collect_loop g (closed_state ?s1 t4 i) b2 =
      ([], Inr (closed_state (closed_state ?s1 t4 i) t2 i))"
    using page_run [OF assms(3) bp4] by simp
  have a: "fst (collect_loop g s (b1 @ b2)) = ?first"
    by (simp add: collect_loop_append r1 r2)
  have b: "fst (collect_loop g s (b1 @ b3 @ b2)) = ?first @ [(j, r3, t3, p3), (i, r2, t2, p2)]"
    by (simp add: collect_loop_append r1 r3 r32)
  have c: "fst (collect_loop g s (b1 @ b4 @ b2)) = ?first"
    by (simp add: collect_loop_append r1 r4 r42)
  from a b c show ?thesis by simp
qed

theorem adjacent_duplicate_filter_witness:
  "reads_as_page example_globals (dump_page ''1'' ''11'' ''Alpha'') ''1'' ''11'' ''Alpha''
      [''first line\<newline>'', ''second line''] False \<and> qualifies example_globals ''Alpha'' \<and>
   reads_as_page example_globals (dump_page ''1'' ''12'' ''Beta'') ''1'' ''12'' ''Beta''
      [''first line\<newline>'', ''second line''] False \<and> qualifies example_globals ''Beta'' \<and>
   reads_as_page example_globals (dump_page ''2'' ''21'' ''Gamma'') ''2'' ''21'' ''Gamma''
      [''first line\<newline>'', ''second line''] False \<and> qualifies example_globals ''Gamma'' \<and>
   ''2'' \<noteq> ''1'' \<and>
   reads_as_page example_globals (dump_page ''3'' ''31'' ''Help:Delta'') ''3'' ''31'' ''Help:Delta''
      [''first line\<newline>'', ''second line''] False \<and>
   (False \<or> \<not> qualifies example_globals ''Help:Delta'') \<and>
   between_pages cp_init \<and>
   fst (collect_loop example_globals cp_init
      (dump_page ''1'' ''11'' ''Alpha'' @ dump_page ''1'' ''12'' ''Beta'')) =
     [(''1'', ''11'', ''Alpha'', [''first line\<newline>'', ''second line''])] \<and>
   fst (collect_loop example_globals cp_init
      (dump_page ''1'' ''11'' ''Alpha'' @ dump_page ''2'' ''21'' ''Gamma'' @
       dump_page ''1'' ''12'' ''Beta'')) =
     [(''1'', ''11'', ''Alpha'', [''first line\<newline>'', ''second line'']),
      (''2'', ''21'', ''Gamma'', [''first line\<newline>'', ''second line'']),
      (''1'', ''12'', ''Beta'', [''first line\<newline>'', ''second line''])] \<and>
   fst (collect_loop example_globals cp_init
      (dump_page ''1'' ''11'' ''Alpha'' @ dump_page ''3'' ''31'' ''Help:Delta'' @
       dump_page ''1'' ''12'' ''Beta'')) =
     [(''1'', ''11'', ''Alpha'', [''first line\<newline>'', ''second line''])]"
proof -
  have p1: "reads_as_page example_globals (dump_page ''1'' ''11'' ''Alpha'') ''1'' ''11'' ''Alpha''
      [''first line\<newline>'', ''second line''] False" by code_simp
  have p2: "reads_as_page example_globals (dump_page ''1'' ''12'' ''Beta'') ''1'' ''12'' ''Beta''
      [''first line\<newline>'', ''second line''] False" by code_simp
  have p3: "reads_as_page example_globals (dump_page ''2'' ''21'' ''Gamma'') ''2'' ''21'' ''Gamma''
      [''first line\<newline>'', ''second line''] False" by code_simp
  have p4: "reads_as_page example_globals (dump_page ''3'' ''31'' ''Help:Delta'') ''3'' ''31''
      ''Help:Delta'' [''first line\<newline>'', ''second line''] False" by code_simp
  have q1: "qualifies example_globals ''Alpha''" by code_simp
  have q2: "qualifies example_globals ''Beta''" by code_simp
  have q3: "qualifies example_globals ''Gamma''" by code_simp
  have q4: "False \<or> \<not> qualifies example_globals ''Help:Delta''" by code_simp
  have n: "''2'' \<noteq> ''1''" by simp
  have bp: "between_pages cp_init" by (simp add: between_pages_def cp_init_def)
  have l: "last_id cp_init = []" by (simp add: cp_init_def)
  show ?thesis
    using p1 p2 p3 p4 q1 q2 q3 q4 bp
      adjacent_duplicate_filter [OF p1 q1 p2 q2 p3 q3 n p4 q4 bp]
    by (simp add: l)
qed

text \<open>
  C3 as stated fails when the first of the two pages repeats the last yielded id. Of
  three pages with id \<open>1\<close> that follow each other only the first is yielded, so of the
  second and the third, two consecutive qualifying pages with the same id, neither is.
  Two pages without an id tag at the start of a stream have the empty id, which is the
  last yielded id there, and neither is yielded.
\<close>

theorem duplicate_of_last_yielded_counterexample:
  "reads_as_page example_globals (dump_page ''1'' ''12'' ''Beta'') ''1'' ''12'' ''Beta''
      [''first line\<newline>'', ''second line''] False \<and> qualifies example_globals ''Beta'' \<and>
   reads_as_page example_globals (dump_page ''1'' ''13'' ''Gamma'') ''1'' ''13'' ''Gamma''
      [''first line\<newline>'', ''second line''] False \<and> qualifies example_globals ''Gamma'' \<and>
   collect_pages example_globals
      (dump_page ''1'' ''11'' ''Alpha'' @ dump_page ''1'' ''12'' ''Beta'' @
       dump_page ''1'' ''13'' ''Gamma'') =
     ([(''1'', ''11'', ''Alpha'', [''first line\<newline>'', ''second line''])], None) \<and>
   reads_as_page example_globals (page_without_id ''Alpha'') [] [] ''Alpha'' [''body''] False \<and>
   reads_as_page example_globals (page_without_id ''Beta'') [] [] ''Beta'' [''body''] False \<and>
   collect_pages example_globals (page_without_id ''Alpha'' @ page_without_id ''Beta'') =
     ([], None)"
  by code_simp

text \<open>
  C1 at a title that begins with the template namespace name but has no colon. The
  title has no namespace prefix and does not start with the template prefix
  \<open>Template:\<close>, the id is new and the page is no redirect, so all four conditions of
  C1 hold; \<open>collect_pages\<close> tests the title against the name \<open>Template\<close> and
  yields nothing. The same page under another title is yielded.
\<close>

theorem template_name_test_drops_article:
  "find_char ''Template metaprogramming'' CHR '':'' < 0 \<and>
   \<not> startswith ''Template metaprogramming'' (templateNamespace example_globals @ '':'') \<and>
   collect_pages example_globals
     (example_page ''7'' ''Template metaprogramming'' ''body'') = ([], None) \<and>
   collect_pages example_globals
     (example_page ''7'' ''Generic programming'' ''body'') =
       ([(''7'', [], ''Generic programming'', [''body''])], None)"
  by code_simp

section \<open>Namespaces of the header and the namespace filter\<close>

lemma header_line_known:
  "tagRE_search l = Some m \<Longrightarrow> group2 m = ''namespace'' \<Longrightarrow>
     group3 m \<in> knownNamespaces (hd_globals (fst (header_line h l)))"
  by (simp add: header_line_def Let_def)

lemma header_line_accepted:
  "acceptedNamespaces (hd_globals (fst (header_line h l))) = acceptedNamespaces (hd_globals h)"
  by (simp add: header_line_def Let_def split: option.splits)

lemma read_header_accepted:
  "acceptedNamespaces (hd_globals (fst (read_header h ls))) = acceptedNamespaces (hd_globals h)"
proof (induction ls arbitrary: h)
  case Nil
  show ?case by simp
next
  case (Cons l ls)
  obtain h' brk where hl: "header_line h l = (h', brk)" by (cases "header_line h l")
  then have "acceptedNamespaces (hd_globals h') = acceptedNamespaces (hd_globals h)"
    using header_line_accepted [of h l] by simp
  with hl Cons.IH [of h'] show ?case by (cases brk) simp_all
qed

lemma collect_line_yield_accepted:
  "collect_line search g s l = Inr (s', Some (i, r, t, p)) \<Longrightarrow>
     find_char t CHR '':'' < 0 \<or> slice_to t (find_char t CHR '':'') \<in> acceptedNamespaces g"
  by (auto simp: collect_line_def Let_def split: if_splits option.splits)

lemma collect_loop_yield_accepted:
  "(i, r, t, p) \<in> set (fst (collect_loop g s ls)) \<Longrightarrow>
     find_char t CHR '':'' < 0 \<or> slice_to t (find_char t CHR '':'') \<in> acceptedNamespaces g"
proof (induction ls arbitrary: s)
  case Nil
  then show ?case by simp
next
  case (Cons l ls)
  show ?case
  proof (cases "collect_line tagRE_search g s l")
    case (Inl e)
    with Cons.prems show ?thesis by simp
  next
    case (Inr x)
    obtain s' y where x: "x = (s', y)" by (cases x)
    from Cons.prems Inr x
    consider "y = Some (i, r, t, p)" | "(i, r, t, p) \<in> set (fst (collect_loop g s' ls))"
      by (auto simp: split_beta split: option.splits)
    then show ?thesis
    proof cases
      case 1
      with Inr x show ?thesis using collect_line_yield_accepted by blast
    next
      case 2
      then show ?thesis by (rule Cons.IH)
    qed
  qed
qed

text \<open>
  C5, as the code has it. A name harvested from a \<open>namespace\<close> tag of the header is
  added to \<open>knownNamespaces\<close>; the header reader leaves \<open>acceptedNamespaces\<close>, the set
  the page collector consults, as it was; and every record the page collector yields
  has a title without a colon or with a prefix that is in \<open>acceptedNamespaces\<close>.
\<close>

theorem header_namespaces_known_not_accepted:
  assumes "tagRE_search l = Some m" "group2 m = ''namespace''"
    and "(i, r, t, p) \<in> set (fst (collect_pages g lines))"
  shows "group3 m \<in> knownNamespaces (hd_globals (fst (header_line h l))) \<and>
         acceptedNamespaces (hd_globals (fst (read_header h ls))) =
           acceptedNamespaces (hd_globals h) \<and>
         (find_char t CHR '':'' < 0 \<or>
          slice_to t (find_char t CHR '':'') \<in> acceptedNamespaces g)"
proof -
  from assms(3) have "(i, r, t, p) \<in> set (fst (collect_loop g cp_init lines))"
    by (simp add: collect_pages_def split_beta)
  then have "find_char t CHR '':'' < 0 \<or>
      slice_to t (find_char t CHR '':'') \<in> acceptedNamespaces g"
    by (rule collect_loop_yield_accepted)
  with header_line_known [OF assms(1) assms(2)] read_header_accepted show ?thesis
    by simp
qed

theorem header_namespaces_known_not_accepted_witness:
  "tagRE_search ''<namespace key=\"12\" case=\"first-letter\">Help</namespace>\<newline>'' =
     Some \<lparr>group1 = [], group2 = ''namespace'', group3 = ''Help'',
           group4 = Some ''</namespace>''\<rparr> \<and>
   (''7'', [], ''w:Entry'', [''body'']) \<in>
     set (fst (collect_pages example_globals (example_page ''7'' ''w:Entry'' ''body''))) \<and>
   ''Help'' \<in> knownNamespaces (hd_globals (fst (header_line
      \<lparr>hd_globals = example_globals, urlbase = []\<rparr>
      ''<namespace key=\"12\" case=\"first-letter\">Help</namespace>\<newline>''))) \<and>
   acceptedNamespaces (hd_globals (fst (read_header
      \<lparr>hd_globals = example_globals, urlbase = []\<rparr> help_dump))) =
     acceptedNamespaces example_globals \<and>
   (find_char ''w:Entry'' CHR '':'' < 0 \<or>
    slice_to ''w:Entry'' (find_char ''w:Entry'' CHR '':'') \<in> acceptedNamespaces example_globals)"
proof -
  have a: "tagRE_search ''<namespace key=\"12\" case=\"first-letter\">Help</namespace>\<newline>'' =
     Some \<lparr>group1 = [], group2 = ''namespace'', group3 = ''Help'',
           group4 = Some ''</namespace>''\<rparr>"
    by code_simp
  have b: "(''7'', [], ''w:Entry'', [''body'']) \<in>
     set (fst (collect_pages example_globals (example_page ''7'' ''w:Entry'' ''body'')))"
    by code_simp
  show ?thesis
    using a b header_namespaces_known_not_accepted
        [where h = "\<lparr>hd_globals = example_globals, urlbase = []\<rparr>" and ls = help_dump,
         OF a _ b]
    by simp
qed

text \<open>
  C5 as stated fails: the header declares \<open>Help\<close>, which goes to \<open>knownNamespaces\<close>,
  and the page \<open>Help:Contents\<close> is still filtered out, since \<open>Help\<close> is not in
  \<open>acceptedNamespaces\<close>: no job is put.
\<close>

theorem header_namespace_not_accepted_counterexample:
  "''Help'' \<in> knownNamespaces (hd_globals (fst
      (read_header \<lparr>hd_globals = example_globals, urlbase = []\<rparr> help_dump))) \<and>
   pd_error (process_dump (\<lambda>f. if f = ''dump.xml'' then Some help_dump else None)
      example_globals ''dump.xml'' None ''out'' 1 False) = None \<and>
   pd_events (process_dump (\<lambda>f. if f = ''dump.xml'' then Some help_dump else None)
      example_globals ''dump.xml'' None ''out'' 1 False) =
     [CreateWriter ''out'', StartReduce, StartWorker 0, PutJobSentinel, JoinWorker 0,
      PutOutputSentinel, JoinReduce]"
  by code_simp

section \<open>The title at the end of a page\<close>

lemma collect_line_before_close:
  assumes "tag_of l \<noteq> Some ''title''" "tag_of l \<noteq> Some ''/page''"
  shows "\<exists>s' y. collect_line tagRE_search g s l = Inr (s', y) \<and> title s' = title s \<and>
           inText s' = text_open (inText s) [l]"
proof (cases "tagRE_search l")
  case None
  then show ?thesis by (simp add: collect_line_def)
next
  case (Some m)
  with assms have "group2 m \<noteq> ''title''" "group2 m \<noteq> ''/page''"
    by (simp_all add: tag_of_def)
  with Some tagRE_search_has_lt [OF Some] show ?thesis
    by (simp add: collect_line_def Let_def)
qed

lemma load_line_before_close:
  assumes "tag_of l \<noteq> Some ''title''" "tag_of l \<noteq> Some ''/page''"
  shows "\<exists>s'. load_line tagRE_search out s l = Inr s' \<and> title s' = title s \<and>
           inText s' = text_open (inText s) [l]"
proof (cases "tagRE_search l")
  case None
  then show ?thesis by (simp add: load_line_def)
next
  case (Some m)
  with assms have "group2 m \<noteq> ''title''" "group2 m \<noteq> ''/page''"
    by (simp_all add: tag_of_def)
  with Some tagRE_search_has_lt [OF Some] show ?thesis
    by (simp add: load_line_def Let_def)
qed

lemma text_open_step: "text_open b (l # ls) = text_open (text_open b [l]) ls"
  by simp

lemma collect_loop_before_close:
  assumes "\<forall>x\<in>set pre. tag_of x \<noteq> Some ''title'' \<and> tag_of x \<noteq> Some ''/page''"
  shows "\<exists>ys s'. collect_loop g s pre = (ys, Inr s') \<and> title s' = title s \<and>
           inText s' = text_open (inText s) pre"
  using assms
proof (induction pre arbitrary: s)
  case Nil
  show ?case by simp
next
  case (Cons l pre)
  from Cons.prems have "tag_of l \<noteq> Some ''title''" "tag_of l \<noteq> Some ''/page''" by simp_all
  from collect_line_before_close [OF this, of g s] obtain s1 y
    where 1: "collect_line tagRE_search g s l = Inr (s1, y)" "title s1 = title s"
      "inText s1 = text_open (inText s) [l]" by blast
  from Cons.prems have "\<forall>x\<in>set pre. tag_of x \<noteq> Some ''title'' \<and> tag_of x \<noteq> Some ''/page''"
    by simp
  from Cons.IH [OF this, of s1] obtain ys s'
    where 2: "collect_loop g s1 pre = (ys, Inr s')" "title s' = title s1"
      "inText s' = text_open (inText s1) pre" by blast
  have "text_open (inText s) (l # pre) = text_open (inText s1) pre"
    unfolding 1(3) by (rule text_open_step)
  with 1 2 show ?case by simp
qed

lemma load_loop_before_close:
  assumes "\<forall>x\<in>set pre. tag_of x \<noteq> Some ''title'' \<and> tag_of x \<noteq> Some ''/page''"
  shows "\<exists>s'. (\<forall>rest. load_loop out s (pre @ rest) = load_loop out s' rest) \<and>
           title s' = title s \<and> inText s' = text_open (inText s) pre"
  using assms
proof (induction pre arbitrary: s)
  case Nil
  show ?case by (intro exI [of _ s]) simp
next
  case (Cons l pre)
  from Cons.prems have "tag_of l \<noteq> Some ''title''" "tag_of l \<noteq> Some ''/page''" by simp_all
  from load_line_before_close [OF this, of out s] obtain s1
    where 1: "load_line tagRE_search out s l = Inr s1" "title s1 = title s"
      "inText s1 = text_open (inText s) [l]" by blast
  from Cons.prems have "\<forall>x\<in>set pre. tag_of x \<noteq> Some ''title'' \<and> tag_of x \<noteq> Some ''/page''"
    by simp
  from Cons.IH [OF this, of s1] obtain s'
    where 2: "\<forall>rest. load_loop out s1 (pre @ rest) = load_loop out s' rest" "title s' = title s1"
      "inText s' = text_open (inText s1) pre" by blast
  have "text_open (inText s) (l # pre) = text_open (inText s1) pre"
    unfolding 1(3) by (rule text_open_step)
  with 2(3) have io: "inText s' = text_open (inText s) (l # pre)" by (simp only:)
  have st: "\<forall>rest. load_loop out s ((l # pre) @ rest) = load_loop out s' rest"
    using 1(1) 2(1) by simp
  have ti: "title s' = title s" using 1(2) 2(2) by simp
  from st ti io show ?case by blast
qed

lemma collect_line_bound:
  "title s \<noteq> None \<Longrightarrow>
     \<exists>s' y. collect_line search g s l = Inr (s', y) \<and> title s' \<noteq> None"
  by (auto simp: collect_line_def Let_def split: option.splits)

lemma load_line_bound:
  "title s \<noteq> None \<Longrightarrow> \<exists>s'. load_line search out s l = Inr s' \<and> title s' \<noteq> None"
  by (auto simp: load_line_def Let_def split: option.splits)

lemma collect_loop_bound: "title s \<noteq> None \<Longrightarrow> error_of (snd (collect_loop g s ls)) = None"
proof (induction ls arbitrary: s)
  case Nil
  show ?case by (simp add: error_of_def)
next
  case (Cons l ls)
  from collect_line_bound [OF Cons.prems] obtain s' y
    where "collect_line tagRE_search g s l = Inr (s', y)" "title s' \<noteq> None" by blast
  with Cons.IH [of s'] show ?case by (simp add: split_beta)
qed

lemma load_loop_bound: "title s \<noteq> None \<Longrightarrow> error_of (load_loop out s ls) = None"
proof (induction ls arbitrary: s)
  case Nil
  show ?case by (simp add: error_of_def)
next
  case (Cons l ls)
  from load_line_bound [OF Cons.prems] obtain s'
    where "load_line tagRE_search out s l = Inr s'" "title s' \<noteq> None" by blast
  with Cons.IH [of s'] show ?case by simp
qed

lemma collect_line_title:
  "tag_of l = Some ''title'' \<Longrightarrow>
     \<exists>s' y. collect_line tagRE_search g s l = Inr (s', y) \<and> title s' \<noteq> None"
  by (auto simp: collect_line_def tag_of_def Let_def dest: tagRE_search_has_lt)

lemma load_line_title:
  "tag_of l = Some ''title'' \<Longrightarrow>
     \<exists>s'. load_line tagRE_search out s l = Inr s' \<and> title s' \<noteq> None"
  by (auto simp: load_line_def tag_of_def Let_def dest: tagRE_search_has_lt)

lemma collect_line_unbound:
  "tag_of l = Some ''/page'' \<Longrightarrow> \<not> inText s \<Longrightarrow> title s = None \<Longrightarrow>
     collect_line tagRE_search g s l = Inl UnboundLocalError"
  by (auto simp: collect_line_def tag_of_def Let_def dest: tagRE_search_has_lt)

lemma load_line_unbound:
  "tag_of l = Some ''/page'' \<Longrightarrow> \<not> inText s \<Longrightarrow> title s = None \<Longrightarrow>
     load_line tagRE_search out s l = Inl UnboundLocalError"
  by (auto simp: load_line_def tag_of_def Let_def dest: tagRE_search_has_lt)

lemma collect_pages_error:
  "snd (collect_pages g ls) = error_of (snd (collect_loop g cp_init ls))"
  by (simp add: collect_pages_def error_of_def split_beta)

text \<open>
  C10, as the code has it. Let \<open>l\<close> be a line before which no line scans as \<open>title\<close> or
  \<open>/page\<close>. If \<open>l\<close> is a \<open>title\<close> line, neither \<open>collect_pages\<close> nor \<open>load_templates\<close>
  raises on the input, whatever follows. If \<open>l\<close> is a \<open>/page\<close> line and is read outside
  an open text element, both raise the unbound-variable error.
\<close>

theorem title_bound_at_page_end:
  assumes "\<forall>x\<in>set pre. tag_of x \<noteq> Some ''title'' \<and> tag_of x \<noteq> Some ''/page''"
  shows "(tag_of l = Some ''title'' \<longrightarrow>
            snd (collect_pages g (pre @ l # rest)) = None \<and>
            error_of (load_templates g (pre @ l # rest) output_file) = None) \<and>
         (tag_of l = Some ''/page'' \<and> \<not> text_open False pre \<longrightarrow>
            snd (collect_pages g (pre @ l # rest)) = Some UnboundLocalError \<and>
            error_of (load_templates g (pre @ l # rest) output_file) = Some UnboundLocalError)"
proof -
  from collect_loop_before_close [OF assms, of g cp_init] obtain ys s1
    where c: "collect_loop g cp_init pre = (ys, Inr s1)" "title s1 = None"
      "inText s1 = text_open False pre"
    by (auto simp: cp_init_def)
  from load_loop_before_close [OF assms, of output_file "lt_init g"] obtain s2
    where t: "\<And>r. load_loop output_file (lt_init g) (pre @ r) = load_loop output_file s2 r"
      "title s2 = None" "inText s2 = text_open False pre"
    by (auto simp: lt_init_def)
  have cl: "snd (collect_loop g cp_init (pre @ l # rest)) = snd (collect_loop g s1 (l # rest))"
    by (simp add: collect_loop_append c split_beta)
  have a: "snd (collect_pages g (pre @ l # rest)) = None"
    and b: "error_of (load_templates g (pre @ l # rest) output_file) = None"
    if "tag_of l = Some ''title''"
  proof -
    from collect_line_title [OF that, of g s1] obtain s' y
      where "collect_line tagRE_search g s1 l = Inr (s', y)" "title s' \<noteq> None" by blast
    with collect_loop_bound [of s' g rest]
    show "snd (collect_pages g (pre @ l # rest)) = None"
      by (simp add: collect_pages_error cl split_beta)
    from load_line_title [OF that, of output_file s2] obtain s''
      where "load_line tagRE_search output_file s2 l = Inr s''" "title s'' \<noteq> None" by blast
    with load_loop_bound [of s'' output_file rest]
    show "error_of (load_templates g (pre @ l # rest) output_file) = None"
      by (simp add: load_templates_def t(1))
  qed
  have c': "snd (collect_pages g (pre @ l # rest)) = Some UnboundLocalError"
    and d: "error_of (load_templates g (pre @ l # rest) output_file) = Some UnboundLocalError"
    if "tag_of l = Some ''/page''" "\<not> text_open False pre"
  proof -
    from that c have "collect_line tagRE_search g s1 l = Inl UnboundLocalError"
      by (simp add: collect_line_unbound)
    then show "snd (collect_pages g (pre @ l # rest)) = Some UnboundLocalError"
      by (simp add: collect_pages_error cl error_of_def)
    from that t have "load_line tagRE_search output_file s2 l = Inl UnboundLocalError"
      by (simp add: load_line_unbound)
    then show "error_of (load_templates g (pre @ l # rest) output_file) = Some UnboundLocalError"
      by (simp add: load_templates_def t(1) error_of_def)
  qed
  from a b c' d show ?thesis by blast
qed

theorem title_bound_at_page_end_witness:
  "tag_of ''<mediawiki>\<newline>'' = Some ''mediawiki'' \<and> tag_of ''<page>\<newline>'' = Some ''page'' \<and>
   tag_of ''<title>Hello</title>\<newline>'' = Some ''title'' \<and>
   snd (collect_pages example_globals
      ([''<mediawiki>\<newline>'', ''<page>\<newline>''] @ ''<title>Hello</title>\<newline>'' # [''<id>6</id>\<newline>'', ''</page>\<newline>''])) = None \<and>
   error_of (load_templates example_globals
      ([''<mediawiki>\<newline>'', ''<page>\<newline>''] @ ''<title>Hello</title>\<newline>'' # [''<id>6</id>\<newline>'', ''</page>\<newline>'']) None) = None \<and>
   tag_of ''</page>\<newline>'' = Some ''/page'' \<and> \<not> text_open False [''<mediawiki>\<newline>'', ''<page>\<newline>''] \<and>
   snd (collect_pages example_globals
      ([''<mediawiki>\<newline>'', ''<page>\<newline>''] @ ''</page>\<newline>'' # [''<title>Hello</title>\<newline>''])) =
     Some UnboundLocalError \<and>
   error_of (load_templates example_globals
      ([''<mediawiki>\<newline>'', ''<page>\<newline>''] @ ''</page>\<newline>'' # [''<title>Hello</title>\<newline>'']) None) =
     Some UnboundLocalError"
proof -
  have m: "tag_of ''<mediawiki>\<newline>'' = Some ''mediawiki''" and p: "tag_of ''<page>\<newline>'' = Some ''page''"
    by code_simp+
  then have h: "\<forall>x\<in>set [''<mediawiki>\<newline>'', ''<page>\<newline>''].
      tag_of x \<noteq> Some ''title'' \<and> tag_of x \<noteq> Some ''/page''"
    by simp
  have t1: "tag_of ''<title>Hello</title>\<newline>'' = Some ''title''" by code_simp
  have t2: "tag_of ''</page>\<newline>'' = Some ''/page''" by code_simp
  have t3: "\<not> text_open False [''<mediawiki>\<newline>'', ''<page>\<newline>'']" by code_simp
  show ?thesis
    using m p t1 t2 t3
      title_bound_at_page_end [OF h, of "''<title>Hello</title>\<newline>''" example_globals
         "[''<id>6</id>\<newline>'', ''</page>\<newline>'']" None]
      title_bound_at_page_end [OF h, of "''</page>\<newline>''" example_globals
         "[''<title>Hello</title>\<newline>'']" None]
    by blast
qed

text \<open>
  C10 as stated fails in its last part: here the first \<open>/page\<close> comes before any title,
  but inside a text element that is still open, so the line is appended to the page
  buffer, the title is never read and neither function raises.
\<close>

theorem close_inside_text_counterexample:
  "tag_of ''<text xml:space=\"preserve\">first line\<newline>'' = Some ''text'' \<and>
   tag_of ''</page>\<newline>'' = Some ''/page'' \<and>
   snd (collect_pages example_globals
      [''<text xml:space=\"preserve\">first line\<newline>'', ''</page>\<newline>'']) = None \<and>
   error_of (load_templates example_globals
      [''<text xml:space=\"preserve\">first line\<newline>'', ''</page>\<newline>''] None) = None"
  by code_simp

section \<open>The template mirror read back\<close>

text \<open>
  C4 at a template page with the body \<open>bar\<close>. The first run, with a mirror file
  requested, stores the body \<open>bar\<close> and writes the page to the mirror with the closing
  text tag indented by three spaces on the line of the body; the run on the lines of the
  mirror stores the body \<open>bar\<close> followed by these three spaces.
\<close>

theorem mirror_round_trip_adds_spaces:
  "(case load_templates example_globals template_dump (Some ''templates.xml'') of
      Inl e \<Rightarrow> False
    | Inr s1 \<Rightarrow>
        defined s1 = [(''Template:Foo'', [''bar''])] \<and>
        file_lines (concat (written s1)) =
          [''<page>\<newline>'',
           ''   <title>Template:Foo</title>\<newline>'',
           ''   <ns>10</ns>\<newline>'',
           ''   <text>bar   </text>\<newline>'',
           ''</page>\<newline>''] \<and>
        (case load_templates example_globals (file_lines (concat (written s1))) None of
           Inl e \<Rightarrow> False
         | Inr s2 \<Rightarrow> defined s2 = [(''Template:Foo'', [''bar   ''])]))"
  by code_simp

end
